theory Spec2Isabelle
  imports Complex_Main "HOL-Library.Log_Nat"
begin

section \<open>JavaScript values used by the segment editor\<close>

text \<open>
  A JavaScript \<open>number\<close> is an IEEE 754 binary64 value. The finite ones are modelled by
  their exact rational value; comparison (\<open><\<close>, \<open><=\<close>, \<open>===\<close>) and \<open>Math.min\<close> are
  exact on them. Arithmetic rounds its exact result to the nearest binary64 value, ties to
  the even significand: that is \<open>fl\<close>. NaN and the infinities are not modelled (a range
  input always parses to a finite number, and the sampling loop below never leaves the
  finite range when its bound is finite).
\<close>

type_synonym number = rat

definition pow2 :: "int \<Rightarrow> rat" where
  "pow2 e = (if 0 \<le> e then 2 ^ nat e else 1 / 2 ^ nat (- e))"

text \<open>The binary exponent of a non-zero value: \<open>2^e \<le> |x| < 2^(e+1)\<close>.\<close>

definition binade :: "rat \<Rightarrow> int" where
  "binade x = (let (p, q) = quotient_of \<bar>x\<bar>; k = bitlen p - bitlen q
               in if pow2 k \<le> \<bar>x\<bar> then k else k - 1)"

definition roundTiesToEven :: "rat \<Rightarrow> int" where
  "roundTiesToEven q = (let f = \<lfloor>q\<rfloor>; r = q - of_int f
     in if r < 1 / 2 then f else if 1 / 2 < r then f + 1 else if even f then f else f + 1)"

text \<open>
  The spacing of binary64 values around \<open>x\<close>: 53 significant bits, and the fixed spacing
  \<open>2^-1074\<close> of the subnormal range below \<open>2^-1022\<close>.
\<close>

definition ulp :: "rat \<Rightarrow> rat" where
  "ulp x = pow2 (max (binade x) (- 1022) - 52)"

definition fl :: "rat \<Rightarrow> number" where
  "fl x = (if x = 0 then 0 else of_int (roundTiesToEven (x / ulp x)) * ulp x)"

definition js_add :: "number \<Rightarrow> number \<Rightarrow> number" where
  "js_add a b = fl (a + b)"

definition js_div :: "number \<Rightarrow> number \<Rightarrow> number" where
  "js_div a b = fl (a / b)"

text \<open>
  \<open>Array.prototype.findIndex\<close>: the first index whose element satisfies the predicate,
  \<open>-1\<close> when none does.
\<close>

fun findIndex :: "('a \<Rightarrow> bool) \<Rightarrow> 'a list \<Rightarrow> int" where
  "findIndex P [] = - 1"
| "findIndex P (x # xs) =
     (if P x then 0 else (let r = findIndex P xs in if r < 0 then - 1 else r + 1))"

text \<open>
  \<open>Array.prototype.slice(start, end)\<close>: a negative bound counts from the end of the
  array, both bounds are clamped to \<open>[0, length]\<close>, and an empty array results when the
  clamped start is not below the clamped end.
\<close>

definition slice :: "'a list \<Rightarrow> int \<Rightarrow> int \<Rightarrow> 'a list" where
  "slice xs b e =
     (let len = int (length xs);
          k = (if b < 0 then max (len + b) 0 else min b len);
          final = (if e < 0 then max (len + e) 0 else min e len)
      in take (nat (final - k)) (drop (nat k) xs))"

section \<open>The data model (types.ts)\<close>

record Frame =
  frame_id :: number
  timestamp :: number
  dataUrl :: string

datatype Status = Idle | Extracting | Frames_ready | Generating | Done | Error

record TimeRange =
  start_time :: number
  end_time :: number

record FrameRange =
  start_frame :: "number option"
  end_frame :: "number option"

record Segment =
  segment_id :: number
  timeRange :: TimeRange
  frames :: "Frame list"
  selectedFrameRange :: FrameRange
  gifDescription :: string
  status :: Status
  gifUrl :: "string option"
  error :: "string option"

section \<open>The segment editor's handlers\<close>

text \<open>
  Every handler reads the \<open>segment\<close> of its closure and reports through \<open>onUpdate\<close>.
  A synchronous handler is modelled by the argument of its \<open>onUpdate\<close> call, \<open>None\<close> when
  it makes none.
\<close>

definition FRAMES_PER_SECOND :: number where
  "FRAMES_PER_SECOND = 10"

text \<open>
  \<open>handleLoadedMetadata\<close>: the argument is \<open>videoRef.current\<close>, given by the video's
  duration, \<open>None\<close> when the ref is null. (\<open>setDuration\<close> only bounds the sliders and
  is left out.)
\<close>

definition handleLoadedMetadata :: "number option \<Rightarrow> Segment \<Rightarrow> Segment option" where
  "handleLoadedMetadata video segment =
     (case video of
        None \<Rightarrow> None
      | Some duration \<Rightarrow>
          if end_time (timeRange segment) = 1
          then Some (segment\<lparr>timeRange := \<lparr>start_time = 0, end_time = min 5 duration\<rparr>\<rparr>)
          else None)"

datatype part = Start | End

text \<open>
  \<open>handleRangeChange\<close>: \<open>value\<close> is the parsed input. The two \<open>if\<close>s of the source test
  different parts, so at most one of them fires. (The seek of the video to the new time
  is left out, and with it the \<open>onseeked\<close> handler that the last run of \<open>extractFrames\<close>
  leaves on the video: on a later seek it pushes one more frame into the array that run
  filled.)
\<close>

definition handleRangeChange :: "number \<Rightarrow> part \<Rightarrow> Segment \<Rightarrow> Segment option" where
  "handleRangeChange val p segment =
     (let s = start_time (timeRange segment); e = end_time (timeRange segment)
      in if p = Start \<and> val < e
         then Some (segment\<lparr>timeRange := \<lparr>start_time = val, end_time = e\<rparr>\<rparr>)
         else if p = End \<and> s < val
         then Some (segment\<lparr>timeRange := \<lparr>start_time = s, end_time = val\<rparr>\<rparr>)
         else None)"

definition handleFrameSelection :: "number \<Rightarrow> Segment \<Rightarrow> Segment" where
  "handleFrameSelection frameId segment =
     (case start_frame (selectedFrameRange segment) of
        None \<Rightarrow> segment\<lparr>selectedFrameRange := \<lparr>start_frame = Some frameId, end_frame = None\<rparr>\<rparr>
      | Some s \<Rightarrow>
          (case end_frame (selectedFrameRange segment) of
             None \<Rightarrow>
               (let startIndex = findIndex (\<lambda>f. frame_id f = s) (frames segment);
                    newIndex = findIndex (\<lambda>f. frame_id f = frameId) (frames segment)
                in if newIndex < startIndex
                   then segment\<lparr>selectedFrameRange := \<lparr>start_frame = Some frameId, end_frame = Some s\<rparr>\<rparr>
                   else segment\<lparr>selectedFrameRange := \<lparr>start_frame = Some s, end_frame = Some frameId\<rparr>\<rparr>)
           | Some e \<Rightarrow>
               segment\<lparr>selectedFrameRange := \<lparr>start_frame = Some frameId, end_frame = None\<rparr>\<rparr>))"

subsection \<open>extractFrames\<close>

text \<open>
  What one call of \<open>extractFrames\<close> finds around it: whether the two refs are set,
  whether the canvas gives a 2D context, the value of the k-th \<open>Math.random()\<close> call,
  and the data URL the canvas yields once the video has settled on a time.
\<close>

record ExtractEnv =
  videoRef :: bool
  canvasRef :: bool
  context2d :: bool
  random :: "nat \<Rightarrow> number"
  capture :: "number \<Rightarrow> string"

definition interval :: number where
  "interval = js_div 1 FRAMES_PER_SECOND"

text \<open>
  The sampling loop \<open>for (let time = start; time <= end; time += interval)\<close>, with
  \<open>extractedFrames.push\<close> as the accumulator. The function is partial: \<open>None\<close> is the
  loop that never ends.
\<close>

partial_function (option) frameLoop ::
  "(nat \<Rightarrow> number) \<Rightarrow> (number \<Rightarrow> string) \<Rightarrow> number \<Rightarrow> number \<Rightarrow> Frame list \<Rightarrow> Frame list option"
where
  "frameLoop rand cap e time extractedFrames =
     (if time \<le> e
      then frameLoop rand cap e (js_add time interval)
             (extractedFrames @
                [\<lparr>frame_id = rand (length extractedFrames), timestamp = time, dataUrl = cap time\<rparr>])
      else Some extractedFrames)"

text \<open>
  \<open>extractFrames\<close> as the arguments of its \<open>onUpdate\<close> calls, in order. The second call
  follows the loop, so a loop that never ends leaves the first call alone.
\<close>

definition extractFrames :: "ExtractEnv \<Rightarrow> Segment \<Rightarrow> Segment list" where
  "extractFrames env segment =
     (if \<not> videoRef env \<or> \<not> canvasRef env then []
      else
        (let reset = segment\<lparr>status := Extracting, frames := [],
                        selectedFrameRange := \<lparr>start_frame = None, end_frame = None\<rparr>,
                        gifDescription := ''''\<rparr>
         in if \<not> context2d env then [reset]
            else
              (case frameLoop (random env) (capture env) (end_time (timeRange segment))
                      (start_time (timeRange segment)) [] of
                 None \<Rightarrow> [reset]
               | Some extractedFrames \<Rightarrow>
                   [reset, segment\<lparr>frames := extractedFrames, status := Frames_ready\<rparr>])))"

subsection \<open>generateGif\<close>

text \<open>
  A promise is modelled by how it settles, if it does. A rejection carries what was
  thrown: an \<open>Error\<close> object with its message, or some other value.
\<close>

datatype thrown = ErrorObject string | OtherValue

datatype 'a promise = Resolved 'a | Rejected thrown | Never

text \<open>
  \<open>Promise.all\<close> of two promises rejects with the rejection that comes first and
  resolves once both have resolved; \<open>firstWins\<close> says whether the first promise is the
  earlier one when both reject.
\<close>

fun promise_all :: "bool \<Rightarrow> 'a promise \<Rightarrow> 'b promise \<Rightarrow> ('a \<times> 'b) promise" where
  "promise_all firstWins (Rejected x) (Rejected y) = Rejected (if firstWins then x else y)"
| "promise_all firstWins (Rejected x) _ = Rejected x"
| "promise_all firstWins _ (Rejected y) = Rejected y"
| "promise_all firstWins (Resolved a) (Resolved b) = Resolved (a, b)"
| "promise_all firstWins _ _ = Never"

text \<open>
  \<open>String.prototype.split\<close> with a separator of one character: the pieces between its
  occurrences, at least one piece. \<open>nth_opt\<close> is the array index, \<open>None\<close> for the
  \<open>undefined\<close> of an index out of range.
\<close>

fun js_split :: "char \<Rightarrow> string \<Rightarrow> string list" where
  "js_split sep [] = [[]]"
| "js_split sep (c # cs) =
     (if c = sep then [] # js_split sep cs
      else (case js_split sep cs of [] \<Rightarrow> [[c]] | piece # pieces \<Rightarrow> (c # piece) # pieces))"

definition nth_opt :: "'a list \<Rightarrow> nat \<Rightarrow> 'a option" where
  "nth_opt xs i = (if i < length xs then Some (xs ! i) else None)"

text \<open>
  \<open>dataUrlToGeminiPart\<close> (geminiService) takes a data URL apart at its first comma, and
  the header at its colon and semicolon. \<open>data\<close> is \<open>undefined\<close> for a string without a
  comma. For a header without a colon, \<open>header.split(':')[1]\<close> is \<open>undefined\<close> and the
  call of \<open>split\<close> on it throws a \<open>TypeError\<close>: that is the result \<open>None\<close>.
\<close>

record GeminiPart =
  mimeType :: string
  data :: "string option"

definition dataUrlToGeminiPart :: "string \<Rightarrow> GeminiPart option" where
  "dataUrlToGeminiPart url =
     (let pieces = js_split CHR '','' url;
          header = hd pieces
      in case nth_opt (js_split CHR '':'' header) 1 of
           None \<Rightarrow> None
         | Some afterColon \<Rightarrow>
             Some \<lparr>mimeType = hd (js_split CHR '';'' afterColon), data = nth_opt pieces 1\<rparr>)"

text \<open>
  What one call of \<open>generateGif\<close> finds around it: how the encoder's promise settles for
  the images it is given (image loading, gif.js and its worker script included), how the
  remote model answers to the image parts it is sent (the prompt and the model name are
  fixed), the message the engine gives the \<open>TypeError\<close> above, and which promise is the
  earlier one when both reject.
\<close>

record GenerateEnv =
  gifPromise :: "string list \<Rightarrow> string promise"
  generateContent :: "GeminiPart list \<Rightarrow> string promise"
  typeErrorMessage :: string
  gifRejectsFirst :: bool

text \<open>
  \<open>generateDescriptionForFrames\<close> (geminiService) turns the data URLs into image parts
  before its \<open>try\<close>: when one of them throws, the promise rejects with that \<open>TypeError\<close>
  and the remote model is not called. Otherwise the parts are sent in order; the model's
  answer is passed on, and any failure of the call is rethrown as one fixed \<open>Error\<close>.
\<close>

definition generateDescriptionForFrames :: "GenerateEnv \<Rightarrow> string list \<Rightarrow> string promise" where
  "generateDescriptionForFrames env frameDataUrls =
     (case those (map dataUrlToGeminiPart frameDataUrls) of
        None \<Rightarrow> Rejected (ErrorObject (typeErrorMessage env))
      | Some imageParts \<Rightarrow>
          (case generateContent env imageParts of
             Resolved text \<Rightarrow> Resolved text
           | Rejected _ \<Rightarrow> Rejected (ErrorObject ''The AI model failed to generate a description.'')
           | Never \<Rightarrow> Never))"

definition selectedFrames :: "number \<Rightarrow> number \<Rightarrow> Segment \<Rightarrow> Frame list" where
  "selectedFrames s e segment =
     (let startIndex = findIndex (\<lambda>f. frame_id f = s) (frames segment);
          endIndex = findIndex (\<lambda>f. frame_id f = e) (frames segment)
      in slice (frames segment) (min startIndex endIndex) (max startIndex endIndex + 1))"

definition errorMessage :: "thrown \<Rightarrow> string" where
  "errorMessage err = (case err of ErrorObject m \<Rightarrow> m | OtherValue \<Rightarrow> ''An unknown error occurred.'')"

text \<open>
  The work \<open>generateGif\<close> starts outside the component, in the order of the source:
  the call of \<open>getWorkerScriptUrl\<close>; the encoder, set up over images that are loaded
  from the given data URLs and added as frames in that order; and the call of
  \<open>generateDescriptionForFrames\<close> on the given data URLs.
\<close>

datatype call =
    WorkerScriptCall
  | EncoderCall "string list"
  | CaptionCall "string list"

text \<open>
  One run of \<open>generateGif\<close>: the calls it makes, and the arguments of its \<open>onUpdate\<close>
  calls, in order.
\<close>

record Generation =
  calls :: "call list"
  updates :: "Segment list"

text \<open>
  \<open>generateGif\<close> returns at its guard before anything else. Past the guard it makes
  its first \<open>onUpdate\<close> call, takes the selected frames out of \<open>frames\<close>, and gives their
  data URLs to the encoder and to the caption service; \<open>getWorkerScriptUrl\<close> is taken to
  settle (it catches a failed fetch and falls back to the CDN address). The later
  \<open>onUpdate\<close> call spreads the \<open>segment\<close> of the closure, not the segment of the first
  call; no such call is made while \<open>Promise.all\<close> stays unsettled.
\<close>

definition generateGif :: "GenerateEnv \<Rightarrow> Segment \<Rightarrow> Generation" where
  "generateGif env segment =
     (case (start_frame (selectedFrameRange segment), end_frame (selectedFrameRange segment)) of
        (Some s, Some e) \<Rightarrow>
          (let started = segment\<lparr>status := Generating, gifUrl := None, error := None\<rparr>;
               images = map dataUrl (selectedFrames s e segment)
           in \<lparr>calls = [WorkerScriptCall, EncoderCall images, CaptionCall images],
               updates = started #
                 (case promise_all (gifRejectsFirst env) (gifPromise env images)
                         (generateDescriptionForFrames env images) of
                    Resolved (url, description) \<Rightarrow>
                      [segment\<lparr>gifDescription := description, gifUrl := Some url, status := Done\<rparr>]
                  | Rejected err \<Rightarrow>
                      [segment\<lparr>status := Error,
                         error := Some (''Failed to generate GIF. '' @ errorMessage err)\<rparr>]
                  | Never \<Rightarrow> [])\<rparr>)
      | _ \<Rightarrow> \<lparr>calls = [], updates = []\<rparr>)"

section \<open>The application (App.tsx)\<close>

text \<open>
  The application holds the list of segments. \<open>pending\<close> holds the \<open>onUpdate\<close> calls that
  asynchronous handlers still owe: each was fixed, closure and all, when its handler
  started, and is delivered at some later time.
\<close>

record App =
  videoFile :: bool
  segments :: "Segment list"
  pending :: "Segment list"

definition newSegment :: "number \<Rightarrow> Segment" where
  "newSegment now =
     \<lparr>segment_id = now, timeRange = \<lparr>start_time = 0, end_time = 1\<rparr>, frames = [],
      selectedFrameRange = \<lparr>start_frame = None, end_frame = None\<rparr>, gifDescription = '''',
      status = Idle, gifUrl = None, error = None\<rparr>"

definition initialApp :: App where
  "initialApp = \<lparr>videoFile = False, segments = [], pending = []\<rparr>"

definition handleVideoUpload :: "number \<Rightarrow> App \<Rightarrow> App" where
  "handleVideoUpload now app = app\<lparr>videoFile := True, segments := [newSegment now]\<rparr>"

definition addSegment :: "number \<Rightarrow> App \<Rightarrow> App" where
  "addSegment now app = app\<lparr>segments := segments app @ [newSegment now]\<rparr>"

definition updateSegment :: "Segment \<Rightarrow> App \<Rightarrow> App" where
  "updateSegment updatedSegment app =
     app\<lparr>segments := map (\<lambda>s. if segment_id s = segment_id updatedSegment then updatedSegment else s)
                         (segments app)\<rparr>"

definition removeSegment :: "number \<Rightarrow> App \<Rightarrow> App" where
  "removeSegment i app = app\<lparr>segments := filter (\<lambda>s. segment_id s \<noteq> i) (segments app)\<rparr>"

text \<open>
  The \<open>onUpdate\<close> calls of one handler run: the first is made at once, the rest are owed.
\<close>

fun dispatch :: "Segment list \<Rightarrow> App \<Rightarrow> App" where
  "dispatch [] app = app"
| "dispatch (u # later) app = (updateSegment u app)\<lparr>pending := pending app @ later\<rparr>"

text \<open>
  What can happen to the page. An editor is named by its position in the list of
  segments; so is a frame thumbnail within its segment, and an owed update.
\<close>

datatype event =
    VideoUpload number
  | AddSegment number
  | RemoveSegment nat
  | LoadedMetadata nat number
  | RangeChange nat number part
  | ExtractFrames nat ExtractEnv
  | FrameSelection nat nat
  | GenerateGif nat GenerateEnv
  | Settle nat

text \<open>
  Step 2 of the editor (the thumbnails and the button that creates the GIF) is rendered
  once the segment has left \<open>idle\<close> and has frames.
\<close>

definition step2Shown :: "Segment \<Rightarrow> bool" where
  "step2Shown segment = (status segment \<noteq> Idle \<and> frames segment \<noteq> [])"

text \<open>
  One event. The guards are those of the rendered page: the uploader is shown until a
  video is chosen, the editors and the add button after that; the trash button needs
  more than one segment; the extract button is disabled while \<open>extracting\<close>; the GIF
  button is disabled while \<open>generating\<close> or without a full selection.
\<close>

fun step :: "event \<Rightarrow> App \<Rightarrow> App" where
  "step (VideoUpload now) app = (if videoFile app then app else handleVideoUpload now app)"
| "step (AddSegment now) app = (if videoFile app then addSegment now app else app)"
| "step (RemoveSegment i) app =
     (if i < length (segments app) \<and> 1 < length (segments app)
      then removeSegment (segment_id (segments app ! i)) app else app)"
| "step (LoadedMetadata i duration) app =
     (if i < length (segments app)
      then (case handleLoadedMetadata (Some duration) (segments app ! i) of
              None \<Rightarrow> app | Some u \<Rightarrow> updateSegment u app)
      else app)"
| "step (RangeChange i val p) app =
     (if i < length (segments app)
      then (case handleRangeChange val p (segments app ! i) of
              None \<Rightarrow> app | Some u \<Rightarrow> updateSegment u app)
      else app)"
| "step (ExtractFrames i env) app =
     (if i < length (segments app) \<and> status (segments app ! i) \<noteq> Extracting
      then dispatch (extractFrames env (segments app ! i)) app else app)"
| "step (FrameSelection i j) app =
     (if i < length (segments app) \<and> step2Shown (segments app ! i)
         \<and> j < length (frames (segments app ! i))
      then updateSegment
             (handleFrameSelection (frame_id (frames (segments app ! i) ! j)) (segments app ! i)) app
      else app)"
| "step (GenerateGif i env) app =
     (if i < length (segments app) \<and> step2Shown (segments app ! i)
         \<and> status (segments app ! i) \<noteq> Generating
      then dispatch (updates (generateGif env (segments app ! i))) app else app)"
| "step (Settle j) app =
     (if j < length (pending app)
      then (updateSegment (pending app ! j) app)\<lparr>pending := take j (pending app) @ drop (Suc j) (pending app)\<rparr>
      else app)"

definition run :: "event list \<Rightarrow> App \<Rightarrow> App" where
  "run evs app = fold step evs app"

section \<open>Concrete inputs\<close>

text \<open>
  Four frames as an extraction leaves them (ids are \<open>Math.random()\<close> draws, so they
  follow no order), and a segment that holds them.
\<close>

definition exampleFrames :: "Frame list" where
  "exampleFrames =
     [\<lparr>frame_id = 1 / 8, timestamp = 0, dataUrl = ''data:image/jpeg;base64,AA''\<rparr>,
      \<lparr>frame_id = 5 / 8, timestamp = 3602879701896397 / 36028797018963968,
         dataUrl = ''data:image/jpeg;base64,AB''\<rparr>,
      \<lparr>frame_id = 3 / 8, timestamp = 3602879701896397 / 18014398509481984,
         dataUrl = ''data:image/jpeg;base64,AC''\<rparr>,
      \<lparr>frame_id = 7 / 8, timestamp = 1351079888211149 / 4503599627370496,
         dataUrl = ''data:image/jpeg;base64,AD''\<rparr>]"

definition exampleSegment :: Segment where
  "exampleSegment =
     \<lparr>segment_id = 1700000000000, timeRange = \<lparr>start_time = 0, end_time = 3 / 8\<rparr>,
      frames = exampleFrames,
      selectedFrameRange = \<lparr>start_frame = None, end_frame = None\<rparr>, gifDescription = '''',
      status = Frames_ready, gifUrl = None, error = None\<rparr>"

text \<open>A page whose refs and canvas work, and one whose canvas gives no 2D context.\<close>

definition camera :: ExtractEnv where
  "camera = \<lparr>videoRef = True, canvasRef = True, context2d = True,
             random = (\<lambda>k. (2 * of_nat k + 1) / 1024),
             capture = (\<lambda>t. ''data:image/jpeg;base64,AAAA'')\<rparr>"

definition noContext :: ExtractEnv where
  "noContext = camera\<lparr>context2d := False\<rparr>"

text \<open>Encoder and caption service: both succeed; the caption call fails; the encoding fails.\<close>

definition bothSucceed :: GenerateEnv where
  "bothSucceed = \<lparr>gifPromise = (\<lambda>imgs. Resolved ''blob:1''),
                  generateContent = (\<lambda>imageParts. Resolved ''A cat jumps.''),
                  typeErrorMessage = ''Cannot read properties of undefined (reading 'split')'',
                  gifRejectsFirst = True\<rparr>"

definition captionFails :: GenerateEnv where
  "captionFails = \<lparr>gifPromise = (\<lambda>imgs. Resolved ''blob:2''),
                   generateContent = (\<lambda>imageParts. Rejected OtherValue),
                   typeErrorMessage = ''Cannot read properties of undefined (reading 'split')'',
                   gifRejectsFirst = True\<rparr>"

definition encodingFails :: GenerateEnv where
  "encodingFails = \<lparr>gifPromise = (\<lambda>imgs. Rejected (ErrorObject ''Failed to load frame image: [object Event]'')),
                    generateContent = (\<lambda>imageParts. Resolved ''A dog runs.''),
                    typeErrorMessage = ''Cannot read properties of undefined (reading 'split')'',
                    gifRejectsFirst = True\<rparr>"

text \<open>
  A session that ends with a finished GIF: a quarter-second video is chosen, its frames
  are extracted, the first and the third are selected, and the GIF is made.
\<close>

definition untilDone :: "event list" where
  "untilDone =
     [VideoUpload 1700000000000, LoadedMetadata 0 (1 / 4), ExtractFrames 0 camera, Settle 0,
      FrameSelection 0 0, FrameSelection 0 2, GenerateGif 0 bothSucceed, Settle 0]"

text \<open>The frames \<open>camera\<close> yields for the quarter second, and the segment of the finished GIF.\<close>

definition quarterFrames :: "Frame list" where
  "quarterFrames =
     [\<lparr>frame_id = 1 / 1024, timestamp = 0, dataUrl = ''data:image/jpeg;base64,AAAA''\<rparr>,
      \<lparr>frame_id = 3 / 1024, timestamp = 3602879701896397 / 36028797018963968,
         dataUrl = ''data:image/jpeg;base64,AAAA''\<rparr>,
      \<lparr>frame_id = 5 / 1024, timestamp = 3602879701896397 / 18014398509481984,
         dataUrl = ''data:image/jpeg;base64,AAAA''\<rparr>]"

definition doneSegment :: Segment where
  "doneSegment =
     \<lparr>segment_id = 1700000000000, timeRange = \<lparr>start_time = 0, end_time = 1 / 4\<rparr>,
      frames = quarterFrames,
      selectedFrameRange = \<lparr>start_frame = Some (1 / 1024), end_frame = Some (5 / 1024)\<rparr>,
      gifDescription = ''A cat jumps.'', status = Done, gifUrl = Some ''blob:1'', error = None\<rparr>"

section \<open>Predicates of the properties\<close>

text \<open>A segment's time range is valid when its start lies before its end.\<close>

definition validRange :: "Segment \<Rightarrow> bool" where
  "validRange segment = (start_time (timeRange segment) < end_time (timeRange segment))"

text \<open>All ranges of a page are valid: those of its segments and those of the owed updates.\<close>

definition rangesValid :: "App \<Rightarrow> bool" where
  "rangesValid app = (list_all validRange (segments app) \<and> list_all validRange (pending app))"

text \<open>An event whose video, if it reports one, reports a positive duration.\<close>

fun positiveDuration :: "event \<Rightarrow> bool" where
  "positiveDuration (LoadedMetadata i duration) = (0 < duration)"
| "positiveDuration _ = True"

text \<open>The \<open>Date.now()\<close> readings of the events that create a segment.\<close>

fun creationTimes :: "event list \<Rightarrow> number list" where
  "creationTimes [] = []"
| "creationTimes (VideoUpload now # evs) = now # creationTimes evs"
| "creationTimes (AddSegment now # evs) = now # creationTimes evs"
| "creationTimes (_ # evs) = creationTimes evs"

text \<open>The events that create or remove segments; every other event updates them.\<close>

fun changesSegmentList :: "event \<Rightarrow> bool" where
  "changesSegmentList (VideoUpload now) = True"
| "changesSegmentList (AddSegment now) = True"
| "changesSegmentList (RemoveSegment i) = True"
| "changesSegmentList _ = False"

section \<open>Array helpers\<close>


lemma findIndex_ge: "- 1 \<le> findIndex P xs"
  by (induction xs) (auto simp: Let_def)


section \<open>Data URLs of the frames\<close>

lemma js_split_not_Nil: "js_split sep cs \<noteq> []"
  by (induction cs) (auto split: list.splits)

lemma dataUrlToGeminiPart_AA:
  "dataUrlToGeminiPart ''data:image/jpeg;base64,AA'' = Some \<lparr>mimeType = ''image/jpeg'', data = Some ''AA''\<rparr>"
  by (simp add: dataUrlToGeminiPart_def nth_opt_def)




lemma dataUrlToGeminiPart_AAAA:
  "dataUrlToGeminiPart ''data:image/jpeg;base64,AAAA'' = Some \<lparr>mimeType = ''image/jpeg'', data = Some ''AAAA''\<rparr>"
  by (simp add: dataUrlToGeminiPart_def nth_opt_def)

lemma dataUrlToGeminiPart_no_colon:
  "dataUrlToGeminiPart ''image/jpeg;base64,AAAA'' = None"
  by (simp add: dataUrlToGeminiPart_def nth_opt_def)


text \<open>
  A frame whose data URL has no colon before its first comma: the caption call rejects
  with the \<open>TypeError\<close> and the remote model is not asked, whatever it would answer.
\<close>

lemma generateDescriptionForFrames_TypeError:
  "generateDescriptionForFrames env [''data:image/jpeg;base64,AA'', ''image/jpeg;base64,AAAA'']
     = Rejected (ErrorObject (typeErrorMessage env))"
  by (simp add: generateDescriptionForFrames_def dataUrlToGeminiPart_AA dataUrlToGeminiPart_no_colon)

section \<open>The exported frames\<close>





section \<open>Running events\<close>

lemma run_append: "run (xs @ ys) app = run ys (run xs app)"
  by (simp add: run_def)

lemma run_Nil: "run [] app = app"
  by (simp add: run_def)

lemma run_Cons: "run (e # es) app = run es (step e app)"
  by (simp add: run_def)

section \<open>The sampling loop in binary64\<close>

text \<open>
  The interval is the binary64 value nearest to one tenth, and values that binary64
  holds are left as they are.
\<close>

lemma interval_value: "interval = 3602879701896397 / 36028797018963968"
  by code_simp

lemma fl_exact:
  "fl 1 = 1 \<and> fl (1 / 2) = 1 / 2 \<and> fl (3 / 2) = 3 / 2 \<and> fl 1700000000000 = 1700000000000"
  by code_simp

text \<open>The additions \<open>time += interval\<close> of the loop, from 0 and from 1.\<close>

lemma from_zero_0:
  "js_add 0 interval = 3602879701896397 / 36028797018963968"
  by code_simp

lemma from_zero_1:
  "js_add (3602879701896397 / 36028797018963968) interval = 3602879701896397 / 18014398509481984"
  by code_simp

lemma from_zero_2:
  "js_add (3602879701896397 / 18014398509481984) interval = 1351079888211149 / 4503599627370496"
  by code_simp

lemma from_zero_3:
  "js_add (1351079888211149 / 4503599627370496) interval = 3602879701896397 / 9007199254740992"
  by code_simp

lemma from_zero_4:
  "js_add (3602879701896397 / 9007199254740992) interval = 1 / 2"
  by code_simp

lemma from_zero_5:
  "js_add (1 / 2) interval = 5404319552844595 / 9007199254740992"
  by code_simp

lemma from_zero_6:
  "js_add (5404319552844595 / 9007199254740992) interval = 3152519739159347 / 4503599627370496"
  by code_simp

lemma from_zero_7:
  "js_add (3152519739159347 / 4503599627370496) interval = 7205759403792793 / 9007199254740992"
  by code_simp

lemma from_zero_8:
  "js_add (7205759403792793 / 9007199254740992) interval = 2026619832316723 / 2251799813685248"
  by code_simp

lemma from_zero_9:
  "js_add (2026619832316723 / 2251799813685248) interval = 9007199254740991 / 9007199254740992"
  by code_simp

lemma from_zero_10:
  "js_add (9007199254740991 / 9007199254740992) interval = 4953959590107545 / 4503599627370496"
  by code_simp

lemma from_one_0:
  "js_add 1 interval = 2476979795053773 / 2251799813685248"
  by code_simp

lemma from_one_1:
  "js_add (2476979795053773 / 2251799813685248) interval = 1351079888211149 / 1125899906842624"
  by code_simp

lemma from_one_2:
  "js_add (1351079888211149 / 1125899906842624) interval = 2927339757790823 / 2251799813685248"
  by code_simp

lemma from_one_3:
  "js_add (2927339757790823 / 2251799813685248) interval = 788129934789837 / 562949953421312"
  by code_simp

lemma from_one_4:
  "js_add (788129934789837 / 562949953421312) interval = 3377699720527873 / 2251799813685248"
  by code_simp

lemmas from_zero = from_zero_0 from_zero_1 from_zero_2 from_zero_3 from_zero_4 from_zero_5
  from_zero_6 from_zero_7 from_zero_8 from_zero_9 from_zero_10

lemmas from_one = from_one_0 from_one_1 from_one_2 from_one_3 from_one_4

section \<open>Rounding error and the end of the sampling loop\<close>

lemma pow2_powi: "pow2 e = 2 powi e"
proof (cases "0 \<le> e")
  case True
  then show ?thesis
    by (simp add: pow2_def power_int_def)
next
  case False
  have "inverse (2::rat) ^ nat (- e) = 1 / 2 ^ nat (- e)"
    by (simp only: inverse_eq_divide power_one_over)
  then show ?thesis
    using False by (simp only: pow2_def power_int_def if_False)
qed

lemma pow2_pos: "0 < pow2 e"
  by (simp add: pow2_powi)

lemma pow2_mono: "a \<le> b \<Longrightarrow> pow2 a \<le> pow2 b"
  by (simp add: pow2_powi power_int_increasing)

lemma pow2_less_cancel: "pow2 a < pow2 b \<Longrightarrow> a < b"
  using pow2_mono [of b a] by (cases "a < b") auto

lemma pow2_diff: "pow2 (a - b) = pow2 a / pow2 b"
  by (simp add: pow2_powi power_int_diff)

lemma pow2_nat: "pow2 (int n) = 2 ^ n"
  by (simp add: pow2_def)

text \<open>The exponent \<open>binade\<close> finds is right: \<open>2^binade x \<le> |x| < 2^(binade x + 1)\<close>.\<close>

lemma binade_bounds:
  assumes "x \<noteq> 0"
  shows "pow2 (binade x) \<le> \<bar>x\<bar> \<and> \<bar>x\<bar> < pow2 (binade x + 1)"
proof -
  obtain p q where pq: "quotient_of \<bar>x\<bar> = (p, q)"
    by (cases "quotient_of \<bar>x\<bar>")
  have q: "0 < q"
    using pq by (rule quotient_of_denom_pos)
  have x: "\<bar>x\<bar> = of_int p / of_int q"
    using pq by (rule quotient_of_div)
  have "0 < \<bar>x\<bar>"
    using assms by simp
  then have p: "0 < p"
    using q x by (simp add: zero_less_divide_iff)
  let ?bp = "bitlen p" and ?bq = "bitlen q"
  have bp: "1 \<le> ?bp" "1 \<le> ?bq"
    using p q by (auto simp: bitlen_alt_def)
  have pb: "(2::int) ^ nat (?bp - 1) \<le> p" "p < 2 ^ nat ?bp"
    using bitlen_bounds [OF p] by simp_all
  have qb: "(2::int) ^ nat (?bq - 1) \<le> q" "q < 2 ^ nat ?bq"
    using bitlen_bounds [OF q] by simp_all
  have pr: "pow2 (?bp - 1) \<le> of_int p" "of_int p < pow2 ?bp"
  proof -
    have "(of_int ((2::int) ^ nat (?bp - 1)) :: rat) \<le> of_int p"
      using pb(1) by (simp only: of_int_le_iff)
    then show "pow2 (?bp - 1) \<le> of_int p"
      using bp by (simp add: pow2_def)
    have "(of_int p :: rat) < of_int ((2::int) ^ nat ?bp)"
      using pb(2) by (simp only: of_int_less_iff)
    then show "of_int p < pow2 ?bp"
      using bp by (simp add: pow2_def)
  qed
  have qr: "pow2 (?bq - 1) \<le> of_int q" "of_int q < pow2 ?bq"
  proof -
    have "(of_int ((2::int) ^ nat (?bq - 1)) :: rat) \<le> of_int q"
      using qb(1) by (simp only: of_int_le_iff)
    then show "pow2 (?bq - 1) \<le> of_int q"
      using bp by (simp add: pow2_def)
    have "(of_int q :: rat) < of_int ((2::int) ^ nat ?bq)"
      using qb(2) by (simp only: of_int_less_iff)
    then show "of_int q < pow2 ?bq"
      using bp by (simp add: pow2_def)
  qed
  have qpos: "(0::rat) < of_int q"
    using q by simp
  have ppos: "(0::rat) < of_int p"
    using p by simp
  have lo: "pow2 (?bp - ?bq - 1) < \<bar>x\<bar>"
  proof -
    have "pow2 (?bp - ?bq - 1) = pow2 (?bp - 1) / pow2 ?bq"
      using pow2_diff [of "?bp - 1" ?bq] by (simp add: algebra_simps)
    also have "\<dots> \<le> of_int p / pow2 ?bq"
      using pr(1) pow2_pos [of ?bq] by (simp add: divide_right_mono)
    also have "\<dots> < of_int p / of_int q"
      using qr(2) ppos qpos by (simp add: divide_strict_left_mono)
    finally show ?thesis
      using x by simp
  qed
  have hi: "\<bar>x\<bar> < pow2 (?bp - ?bq + 1)"
  proof -
    have "of_int p / of_int q < pow2 ?bp / of_int q"
      using pr(2) qpos by (simp add: divide_strict_right_mono)
    also have "\<dots> \<le> pow2 ?bp / pow2 (?bq - 1)"
      using qr(1) pow2_pos [of ?bp] pow2_pos [of "?bq - 1"] qpos
      by (simp add: divide_left_mono)
    also have "\<dots> = pow2 (?bp - ?bq + 1)"
      using pow2_diff [of ?bp "?bq - 1"] by (simp add: algebra_simps)
    finally show ?thesis
      using x by simp
  qed
  show ?thesis
  proof (cases "pow2 (?bp - ?bq) \<le> \<bar>x\<bar>")
    case True
    then have "binade x = ?bp - ?bq"
      using pq by (simp add: binade_def)
    then show ?thesis
      using True hi by simp
  next
    case False
    then have "binade x = ?bp - ?bq - 1"
      using pq by (simp add: binade_def)
    then show ?thesis
      using False lo by simp
  qed
qed

lemma roundTiesToEven_error: "\<bar>of_int (roundTiesToEven q) - q\<bar> \<le> 1 / 2"
proof -
  have "of_int \<lfloor>q\<rfloor> \<le> q" "q < of_int \<lfloor>q\<rfloor> + 1"
    by linarith+
  then show ?thesis
    by (auto simp: roundTiesToEven_def Let_def abs_le_iff)
qed

lemma ulp_pos: "0 < ulp x"
  by (simp add: ulp_def pow2_pos)

lemma fl_error: "\<bar>fl x - x\<bar> \<le> ulp x / 2"
proof (cases "x = 0")
  case True
  then show ?thesis
    using ulp_pos [of x] by (simp add: fl_def)
next
  case False
  let ?u = "ulp x"
  have u: "0 < ?u"
    by (rule ulp_pos)
  have "fl x - x = (of_int (roundTiesToEven (x / ?u)) - x / ?u) * ?u"
    using False u by (simp add: fl_def algebra_simps)
  then have "\<bar>fl x - x\<bar> = \<bar>of_int (roundTiesToEven (x / ?u)) - x / ?u\<bar> * ?u"
    using u by (simp add: abs_mult)
  also have "\<dots> \<le> (1 / 2) * ?u"
    using roundTiesToEven_error [of "x / ?u"] u by (intro mult_right_mono) simp_all
  finally show ?thesis
    by simp
qed

lemma ulp_small:
  assumes "x \<noteq> 0" "\<bar>x\<bar> < 2 ^ 50"
  shows "ulp x \<le> 1 / 8"
proof -
  have "pow2 (binade x) < pow2 50"
    using binade_bounds [OF assms(1)] assms(2) pow2_nat [of 50] by simp
  then have "binade x < 50"
    by (rule pow2_less_cancel)
  then have "max (binade x) (- 1022) - 52 \<le> - 3"
    by simp
  then have "ulp x \<le> pow2 (- 3)"
    unfolding ulp_def by (rule pow2_mono)
  then show ?thesis
    by (simp add: pow2_def)
qed

lemma js_add_interval_advances:
  assumes "0 \<le> time" "time \<le> 2 ^ 49"
  shows "time + 1 / 32 \<le> js_add time interval"
proof -
  let ?x = "time + interval"
  have i: "interval = 3602879701896397 / 36028797018963968"
    by (rule interval_value)
  have pos: "?x \<noteq> 0" "\<bar>?x\<bar> < 2 ^ 50"
    using assms by (simp_all add: i)
  have "\<bar>fl ?x - ?x\<bar> \<le> 1 / 16"
    using fl_error [of ?x] ulp_small [OF pos] by simp
  then have "?x - 1 / 16 \<le> fl ?x"
    unfolding abs_le_iff by linarith
  then show ?thesis
    by (simp add: js_add_def i)
qed

text \<open>
  For every range that ends before \<open>2^49\<close> seconds, the loop ends: each addition
  advances the running time by at least \<open>1/32\<close>.
\<close>

lemma frameLoop_ends_within:
  assumes "0 \<le> time" "e \<le> 2 ^ 49" "(e - time) * 32 < of_nat n"
  shows "\<exists>fs. frameLoop rand cap e time acc = Some fs"
  using assms
proof (induction n arbitrary: time acc)
  case 0
  then have "\<not> time \<le> e"
    by simp
  then show ?case
    by (simp add: frameLoop.simps)
next
  case (Suc n)
  show ?case
  proof (cases "time \<le> e")
    case False
    then show ?thesis
      by (simp add: frameLoop.simps)
  next
    case True
    let ?t = "js_add time interval"
    have adv: "time + 1 / 32 \<le> ?t"
      using Suc.prems(1,2) True by (intro js_add_interval_advances) simp_all
    have "0 \<le> ?t"
      using adv Suc.prems(1) by simp
    moreover have "(e - ?t) * 32 < of_nat n"
      using adv Suc.prems(3) by simp
    ultimately obtain fs where
      "frameLoop rand cap e ?t
         (acc @ [\<lparr>frame_id = rand (length acc), timestamp = time, dataUrl = cap time\<rparr>]) = Some fs"
      using Suc.IH [of ?t] Suc.prems(2) by blast
    then show ?thesis
      using True by (subst frameLoop.simps) simp
  qed
qed

lemma frameLoop_ends:
  assumes "0 \<le> time" "e \<le> 2 ^ 49"
  shows "\<exists>fs. frameLoop rand cap e time acc = Some fs"
proof -
  obtain n where "(e - time) * 32 < of_nat n"
    using reals_Archimedean2 by blast
  then show ?thesis
    using assms frameLoop_ends_within by blast
qed

text \<open>
  What does hold of the sampling loop for every range that starts at or after 0 and ends
  before \<open>2^49\<close> seconds: it ends; the frames are appended in strictly increasing order
  of their timestamps; the timestamps lie in the range; and the first one is the start
  of the range.
\<close>

lemma frameLoop_ordered_within:
  assumes "0 \<le> time" "e \<le> 2 ^ 49" "(e - time) * 32 < of_nat n"
  shows "\<exists>new. frameLoop rand cap e time acc = Some (acc @ new)
           \<and> sorted_wrt (<) (map timestamp new)
           \<and> (\<forall>f \<in> set new. time \<le> timestamp f \<and> timestamp f \<le> e)
           \<and> (time \<le> e \<longrightarrow> new \<noteq> [] \<and> timestamp (hd new) = time)"
  using assms
proof (induction n arbitrary: time acc)
  case 0
  then have "\<not> time \<le> e"
    by simp
  then have "frameLoop rand cap e time acc = Some (acc @ [])"
    by (simp add: frameLoop.simps)
  then show ?case
    using \<open>\<not> time \<le> e\<close> by (intro exI [of _ "[]"]) simp
next
  case (Suc n)
  show ?case
  proof (cases "time \<le> e")
    case False
    then have "frameLoop rand cap e time acc = Some (acc @ [])"
      by (simp add: frameLoop.simps)
    then show ?thesis
      using False by (intro exI [of _ "[]"]) simp
  next
    case True
    let ?t = "js_add time interval"
    let ?f = "\<lparr>frame_id = rand (length acc), timestamp = time, dataUrl = cap time\<rparr>"
    have adv: "time + 1 / 32 \<le> ?t"
      using Suc.prems(1,2) True by (intro js_add_interval_advances) simp_all
    have t0: "0 \<le> ?t"
      using adv Suc.prems(1) by simp
    have tn: "(e - ?t) * 32 < of_nat n"
      using adv Suc.prems(3) by simp
    obtain new where new:
      "frameLoop rand cap e ?t (acc @ [?f]) = Some ((acc @ [?f]) @ new)"
      "sorted_wrt (<) (map timestamp new)"
      "\<forall>f \<in> set new. ?t \<le> timestamp f \<and> timestamp f \<le> e"
      using Suc.IH [OF t0 Suc.prems(2) tn, of "acc @ [?f]"] by blast
    have run: "frameLoop rand cap e time acc = Some (acc @ (?f # new))"
      using True new(1) by (subst frameLoop.simps) simp
    have later: "\<forall>f \<in> set new. time < timestamp f"
      using new(3) adv by fastforce
    have sorted: "sorted_wrt (<) (map timestamp (?f # new))"
      using new(2) later by simp
    have inside: "\<forall>f \<in> set (?f # new). time \<le> timestamp f \<and> timestamp f \<le> e"
      using new(3) later True by fastforce
    show ?thesis
      using run sorted inside by (intro exI [of _ "?f # new"]) simp
  qed
qed

lemma frameLoop_ordered:
  assumes "0 \<le> time" "e \<le> 2 ^ 49"
  shows "\<exists>fs. frameLoop rand cap e time [] = Some fs
           \<and> sorted_wrt (<) (map timestamp fs)
           \<and> (\<forall>f \<in> set fs. time \<le> timestamp f \<and> timestamp f \<le> e)
           \<and> (time \<le> e \<longrightarrow> fs \<noteq> [] \<and> timestamp (hd fs) = time)"
proof -
  obtain n where "(e - time) * 32 < of_nat n"
    using reals_Archimedean2 by blast
  then show ?thesis
    using frameLoop_ordered_within [OF assms, of n rand cap "[]"] by simp
qed

lemma extractFrames_completes:
  assumes "videoRef env" "canvasRef env" "context2d env"
      and "0 \<le> start_time (timeRange segment)" "end_time (timeRange segment) \<le> 2 ^ 49"
  shows "\<exists>fs. extractFrames env segment =
               [segment\<lparr>status := Extracting, frames := [],
                         selectedFrameRange := \<lparr>start_frame = None, end_frame = None\<rparr>,
                         gifDescription := ''''\<rparr>,
                segment\<lparr>frames := fs, status := Frames_ready\<rparr>]
           \<and> sorted_wrt (<) (map timestamp fs)
           \<and> (\<forall>f \<in> set fs. start_time (timeRange segment) \<le> timestamp f
                              \<and> timestamp f \<le> end_time (timeRange segment))"
proof -
  obtain fs where fs:
    "frameLoop (random env) (capture env) (end_time (timeRange segment))
       (start_time (timeRange segment)) [] = Some fs"
    "sorted_wrt (<) (map timestamp fs)"
    "\<forall>f \<in> set fs. start_time (timeRange segment) \<le> timestamp f
                    \<and> timestamp f \<le> end_time (timeRange segment)"
    using frameLoop_ordered [OF assms(4,5)] by blast
  have "extractFrames env segment =
               [segment\<lparr>status := Extracting, frames := [],
                         selectedFrameRange := \<lparr>start_frame = None, end_frame = None\<rparr>,
                         gifDescription := ''''\<rparr>,
                segment\<lparr>frames := fs, status := Frames_ready\<rparr>]"
    using assms(1-3) fs(1) by (simp add: extractFrames_def)
  then show ?thesis
    using fs(2,3) by blast
qed

section \<open>Extraction at the sliders\<close>

lemma camera_works: "videoRef camera" "canvasRef camera" "context2d camera"
  by (simp_all add: camera_def)

lemma camera_one_to_one_and_a_half:
  "frameLoop (random camera) (capture camera) (3 / 2) 1 [] = Some
     [\<lparr>frame_id = 1 / 1024, timestamp = 1, dataUrl = ''data:image/jpeg;base64,AAAA''\<rparr>,
      \<lparr>frame_id = 3 / 1024, timestamp = 2476979795053773 / 2251799813685248,
         dataUrl = ''data:image/jpeg;base64,AAAA''\<rparr>,
      \<lparr>frame_id = 5 / 1024, timestamp = 1351079888211149 / 1125899906842624,
         dataUrl = ''data:image/jpeg;base64,AAAA''\<rparr>,
      \<lparr>frame_id = 7 / 1024, timestamp = 2927339757790823 / 2251799813685248,
         dataUrl = ''data:image/jpeg;base64,AAAA''\<rparr>,
      \<lparr>frame_id = 9 / 1024, timestamp = 788129934789837 / 562949953421312,
         dataUrl = ''data:image/jpeg;base64,AAAA''\<rparr>]"
  by (simp add: frameLoop.simps from_one camera_def)

lemma camera_zero_to_one:
  "map_option (map timestamp) (frameLoop (random camera) (capture camera) 1 0 []) = Some
     [0, 3602879701896397 / 36028797018963968, 3602879701896397 / 18014398509481984,
      1351079888211149 / 4503599627370496, 3602879701896397 / 9007199254740992, 1 / 2,
      5404319552844595 / 9007199254740992, 3152519739159347 / 4503599627370496,
      7205759403792793 / 9007199254740992, 2026619832316723 / 2251799813685248,
      9007199254740991 / 9007199254740992]"
  by (simp add: frameLoop.simps from_zero camera_def)

lemma sliders_state:
  "run [VideoUpload 1700000000000, LoadedMetadata 0 10, RangeChange 0 (3 / 2) End,
        RangeChange 0 1 Start] initialApp =
     \<lparr>videoFile = True,
      segments = [(newSegment 1700000000000)\<lparr>timeRange := \<lparr>start_time = 1, end_time = 3 / 2\<rparr>\<rparr>],
      pending = []\<rparr>"
  by (simp add: run_Nil run_Cons initialApp_def handleVideoUpload_def handleLoadedMetadata_def
        handleRangeChange_def updateSegment_def newSegment_def)

lemma one_second_state:
  "run [VideoUpload 1700000000000, LoadedMetadata 0 1] initialApp =
     \<lparr>videoFile = True, segments = [newSegment 1700000000000], pending = []\<rparr>"
  by (simp add: run_Nil run_Cons initialApp_def handleVideoUpload_def handleLoadedMetadata_def
        updateSegment_def newSegment_def)

lemma extract_and_settle:
  assumes "frameLoop (random camera) (capture camera) (end_time (timeRange segment))
             (start_time (timeRange segment)) [] = Some fs"
      and "status segment \<noteq> Extracting"
  shows "segments (run [ExtractFrames 0 camera, Settle 0]
                     \<lparr>videoFile = True, segments = [segment], pending = []\<rparr>)
           = [segment\<lparr>frames := fs, status := Frames_ready\<rparr>]"
  using assms
  by (simp add: run_Nil run_Cons extractFrames_def camera_works updateSegment_def)

text \<open>
  C1. The claim gives \<open>floor((end - start) * 10) + 1\<close> frames at the timestamps
  \<open>start + k/10\<close>. The loop adds the interval to the running time, and every addition
  rounds. With the sliders at 1 and 1.5 the claim gives six frames, the last at 1.5; the
  code yields five, at 1, 1.1, 1.2000000000000002, 1.3000000000000003 and
  1.4000000000000004, because the next running time is 1.5000000000000004. For the range
  from 0 to 1 (the default range of a video of one second) the code yields eleven frames,
  but the fourth timestamp is 0.30000000000000004 and the last is 0.9999999999999999,
  not 1.
\<close>

theorem extractFrames_accumulates_rounding:
  "map (map timestamp \<circ> frames)
     (segments (run ([VideoUpload 1700000000000, LoadedMetadata 0 10, RangeChange 0 (3 / 2) End,
                      RangeChange 0 1 Start] @ [ExtractFrames 0 camera, Settle 0]) initialApp))
     = [[1, 2476979795053773 / 2251799813685248, 1351079888211149 / 1125899906842624,
         2927339757790823 / 2251799813685248, 788129934789837 / 562949953421312]]
   \<and> map (map timestamp \<circ> frames)
     (segments (run ([VideoUpload 1700000000000, LoadedMetadata 0 1]
                      @ [ExtractFrames 0 camera, Settle 0]) initialApp))
     = [[0, 3602879701896397 / 36028797018963968, 3602879701896397 / 18014398509481984,
         1351079888211149 / 4503599627370496, 3602879701896397 / 9007199254740992, 1 / 2,
         5404319552844595 / 9007199254740992, 3152519739159347 / 4503599627370496,
         7205759403792793 / 9007199254740992, 2026619832316723 / 2251799813685248,
         9007199254740991 / 9007199254740992]]"
proof
  have a: "frameLoop (random camera) (capture camera)
             (end_time (timeRange ((newSegment 1700000000000)\<lparr>timeRange := \<lparr>start_time = 1, end_time = 3 / 2\<rparr>\<rparr>)))
             (start_time (timeRange ((newSegment 1700000000000)\<lparr>timeRange := \<lparr>start_time = 1, end_time = 3 / 2\<rparr>\<rparr>))) []
           = frameLoop (random camera) (capture camera) (3 / 2) 1 []"
    by simp
  show "map (map timestamp \<circ> frames)
     (segments (run ([VideoUpload 1700000000000, LoadedMetadata 0 10, RangeChange 0 (3 / 2) End,
                      RangeChange 0 1 Start] @ [ExtractFrames 0 camera, Settle 0]) initialApp))
     = [[1, 2476979795053773 / 2251799813685248, 1351079888211149 / 1125899906842624,
         2927339757790823 / 2251799813685248, 788129934789837 / 562949953421312]]"
    unfolding run_append sliders_state
    by (subst extract_and_settle [OF a [unfolded camera_one_to_one_and_a_half]])
       (simp_all add: newSegment_def)
next
  obtain fs where fs: "frameLoop (random camera) (capture camera) 1 0 [] = Some fs"
    and ts: "map timestamp fs =
     [0, 3602879701896397 / 36028797018963968, 3602879701896397 / 18014398509481984,
      1351079888211149 / 4503599627370496, 3602879701896397 / 9007199254740992, 1 / 2,
      5404319552844595 / 9007199254740992, 3152519739159347 / 4503599627370496,
      7205759403792793 / 9007199254740992, 2026619832316723 / 2251799813685248,
      9007199254740991 / 9007199254740992]"
    using camera_zero_to_one by (cases "frameLoop (random camera) (capture camera) 1 0 []") auto
  have b: "frameLoop (random camera) (capture camera)
             (end_time (timeRange (newSegment 1700000000000)))
             (start_time (timeRange (newSegment 1700000000000))) [] = Some fs"
    using fs by (simp add: newSegment_def)
  show "map (map timestamp \<circ> frames)
     (segments (run ([VideoUpload 1700000000000, LoadedMetadata 0 1]
                      @ [ExtractFrames 0 camera, Settle 0]) initialApp))
     = [[0, 3602879701896397 / 36028797018963968, 3602879701896397 / 18014398509481984,
         1351079888211149 / 4503599627370496, 3602879701896397 / 9007199254740992, 1 / 2,
         5404319552844595 / 9007199254740992, 3152519739159347 / 4503599627370496,
         7205759403792793 / 9007199254740992, 2026619832316723 / 2251799813685248,
         9007199254740991 / 9007199254740992]]"
    unfolding run_append one_second_state
    by (subst extract_and_settle [OF b]) (simp_all add: newSegment_def ts)
qed

section \<open>A session up to the finished GIF\<close>

lemma camera_quarter_second:
  "frameLoop (random camera) (capture camera) (1 / 4) 0 [] = Some quarterFrames"
  by (simp add: frameLoop.simps from_zero_0 from_zero_1 from_zero_2 camera_def quarterFrames_def)

lemma extractFrames_quarter_second:
  assumes "timeRange segment = \<lparr>start_time = 0, end_time = 1 / 4\<rparr>"
  shows "extractFrames camera segment =
     [segment\<lparr>status := Extracting, frames := [],
               selectedFrameRange := \<lparr>start_frame = None, end_frame = None\<rparr>,
               gifDescription := ''''\<rparr>,
      segment\<lparr>frames := quarterFrames, status := Frames_ready\<rparr>]"
  by (simp add: extractFrames_def camera_works assms camera_quarter_second)

lemma session_1:
  "run [VideoUpload 1700000000000, LoadedMetadata 0 (1 / 4)] initialApp =
     \<lparr>videoFile = True,
      segments = [(newSegment 1700000000000)\<lparr>timeRange := \<lparr>start_time = 0, end_time = 1 / 4\<rparr>\<rparr>],
      pending = []\<rparr>"
  by (simp add: run_Nil run_Cons initialApp_def handleVideoUpload_def handleLoadedMetadata_def
        updateSegment_def newSegment_def)

lemma session_2:
  "run [ExtractFrames 0 camera, Settle 0]
     \<lparr>videoFile = True,
      segments = [(newSegment 1700000000000)\<lparr>timeRange := \<lparr>start_time = 0, end_time = 1 / 4\<rparr>\<rparr>],
      pending = []\<rparr> =
     \<lparr>videoFile = True,
      segments = [(newSegment 1700000000000)\<lparr>timeRange := \<lparr>start_time = 0, end_time = 1 / 4\<rparr>,
                    frames := quarterFrames, status := Frames_ready\<rparr>],
      pending = []\<rparr>"
  by (simp add: run_Nil run_Cons extractFrames_def camera_works camera_quarter_second
        updateSegment_def newSegment_def)

lemma session_3:
  "run [FrameSelection 0 0, FrameSelection 0 2]
     \<lparr>videoFile = True,
      segments = [(newSegment 1700000000000)\<lparr>timeRange := \<lparr>start_time = 0, end_time = 1 / 4\<rparr>,
                    frames := quarterFrames, status := Frames_ready\<rparr>],
      pending = []\<rparr> =
     \<lparr>videoFile = True,
      segments = [(newSegment 1700000000000)\<lparr>timeRange := \<lparr>start_time = 0, end_time = 1 / 4\<rparr>,
                    frames := quarterFrames, status := Frames_ready,
                    selectedFrameRange := \<lparr>start_frame = Some (1 / 1024), end_frame = Some (5 / 1024)\<rparr>\<rparr>],
      pending = []\<rparr>"
  by (simp add: run_Nil run_Cons step2Shown_def handleFrameSelection_def quarterFrames_def
        updateSegment_def newSegment_def)

lemma session_4:
  "run [GenerateGif 0 bothSucceed, Settle 0]
     \<lparr>videoFile = True,
      segments = [(newSegment 1700000000000)\<lparr>timeRange := \<lparr>start_time = 0, end_time = 1 / 4\<rparr>,
                    frames := quarterFrames, status := Frames_ready,
                    selectedFrameRange := \<lparr>start_frame = Some (1 / 1024), end_frame = Some (5 / 1024)\<rparr>\<rparr>],
      pending = []\<rparr> =
     \<lparr>videoFile = True, segments = [doneSegment], pending = []\<rparr>"
  by (simp add: run_Nil run_Cons step2Shown_def generateGif_def generateDescriptionForFrames_def
        dataUrlToGeminiPart_AAAA selectedFrames_def slice_def quarterFrames_def bothSucceed_def
        updateSegment_def newSegment_def doneSegment_def Let_def)

lemma untilDone_state:
  "run untilDone initialApp = \<lparr>videoFile = True, segments = [doneSegment], pending = []\<rparr>"
proof -
  have eq: "untilDone = [VideoUpload 1700000000000, LoadedMetadata 0 (1 / 4)]
          @ [ExtractFrames 0 camera, Settle 0] @ [FrameSelection 0 0, FrameSelection 0 2]
          @ [GenerateGif 0 bothSucceed, Settle 0]"
    by (simp add: untilDone_def)
  show ?thesis
    by (subst eq) (simp only: run_append session_1 session_2 session_3 session_4)
qed

lemma doneSegment_fields:
  "segment_id doneSegment = 1700000000000"
  "timeRange doneSegment = \<lparr>start_time = 0, end_time = 1 / 4\<rparr>"
  "selectedFrameRange doneSegment = \<lparr>start_frame = Some (1 / 1024), end_frame = Some (5 / 1024)\<rparr>"
  "status doneSegment = Done"
  "gifUrl doneSegment = Some ''blob:1''"
  "error doneSegment = None"
  "gifDescription doneSegment = ''A cat jumps.''"
  "frames doneSegment = quarterFrames"
  by (simp_all add: doneSegment_def)

lemma generateGif_doneSegment_captionFails:
  "updates (generateGif captionFails doneSegment) =
     [doneSegment\<lparr>status := Generating, gifUrl := None, error := None\<rparr>,
      doneSegment\<lparr>status := Error,
         error := Some ''Failed to generate GIF. The AI model failed to generate a description.''\<rparr>]"
  by (simp add: generateGif_def doneSegment_fields captionFails_def generateDescriptionForFrames_def
        selectedFrames_def quarterFrames_def slice_def dataUrlToGeminiPart_AAAA errorMessage_def
        Let_def)

lemma captionFails_state:
  "run (untilDone @ [GenerateGif 0 captionFails, Settle 0]) initialApp =
     \<lparr>videoFile = True,
      segments = [doneSegment\<lparr>status := Error,
         error := Some ''Failed to generate GIF. The AI model failed to generate a description.''\<rparr>],
      pending = []\<rparr>"
  by (simp add: run_append untilDone_state run_Nil run_Cons generateGif_doneSegment_captionFails
        doneSegment_fields updateSegment_def step2Shown_def quarterFrames_def)

section \<open>Failures of generation and extraction\<close>

text \<open>
  C2. The claim has a failed generation end in \<open>error\<close> with \<open>gifUrl\<close> undefined. After
  a finished GIF the button that creates the GIF stays enabled; when it is used again and
  the caption call fails, \<open>generateGif\<close> first clears \<open>gifUrl\<close> and then, in its
  \<open>catch\<close>, spreads the segment of its closure: the segment ends in \<open>error\<close> with the
  message set and with the handle of the previous GIF back in \<open>gifUrl\<close>.
\<close>

theorem generateGif_failure_restores_stale_gifUrl:
  "segments (run (untilDone @ [GenerateGif 0 captionFails]) initialApp)
     = [doneSegment\<lparr>status := Generating, gifUrl := None, error := None\<rparr>]
   \<and> segments (run (untilDone @ [GenerateGif 0 captionFails, Settle 0]) initialApp)
     = [doneSegment\<lparr>status := Error,
          error := Some ''Failed to generate GIF. The AI model failed to generate a description.''\<rparr>]
   \<and> gifUrl (segments (run (untilDone @ [GenerateGif 0 captionFails, Settle 0]) initialApp) ! 0)
       = Some ''blob:1''"
  by (simp add: run_append untilDone_state run_Nil run_Cons generateGif_doneSegment_captionFails
        doneSegment_fields updateSegment_def step2Shown_def quarterFrames_def)

text \<open>
  C3. The claim has \<open>extractFrames\<close> clear \<open>gifUrl\<close> and \<open>error\<close> with the rest of the
  derived state. The update that moves the segment to \<open>extracting\<close> resets the frames, the
  selection and the description only: after a finished GIF the handle stays in \<open>gifUrl\<close>,
  and after a failed generation the message stays in \<open>error\<close>.
\<close>

theorem extractFrames_keeps_gifUrl_and_error:
  "segments (run (untilDone @ [ExtractFrames 0 camera]) initialApp)
     = [doneSegment\<lparr>status := Extracting, frames := [],
                      selectedFrameRange := \<lparr>start_frame = None, end_frame = None\<rparr>,
                      gifDescription := ''''\<rparr>]
   \<and> gifUrl (segments (run (untilDone @ [ExtractFrames 0 camera]) initialApp) ! 0) = Some ''blob:1''
   \<and> status (segments (run (untilDone @ [GenerateGif 0 captionFails, Settle 0, ExtractFrames 0 camera])
                initialApp) ! 0) = Extracting
   \<and> error (segments (run (untilDone @ [GenerateGif 0 captionFails, Settle 0, ExtractFrames 0 camera])
                initialApp) ! 0)
       = Some ''Failed to generate GIF. The AI model failed to generate a description.''"
proof -
  have a: "run (untilDone @ [ExtractFrames 0 camera]) initialApp
             = step (ExtractFrames 0 camera) \<lparr>videoFile = True, segments = [doneSegment], pending = []\<rparr>"
    by (simp add: run_append untilDone_state run_Nil run_Cons)
  have b: "run (untilDone @ [GenerateGif 0 captionFails, Settle 0, ExtractFrames 0 camera]) initialApp
             = step (ExtractFrames 0 camera)
                 \<lparr>videoFile = True,
                  segments = [doneSegment\<lparr>status := Error,
                     error := Some ''Failed to generate GIF. The AI model failed to generate a description.''\<rparr>],
                  pending = []\<rparr>"
    using captionFails_state
    by (simp add: run_append run_Nil run_Cons)
  show ?thesis
    unfolding a b
    by (simp add: extractFrames_quarter_second doneSegment_fields updateSegment_def)
qed

text \<open>
  C4. The claim has a failed acquisition of the 2D context signalled, the segment never
  left in \<open>extracting\<close>. The code moves the segment to \<open>extracting\<close> and then returns
  when the context is null: no update is owed, no error is set, and the extract button,
  disabled while \<open>extracting\<close>, does nothing any more.
\<close>

theorem extractFrames_without_context_stays_extracting:
  "run [VideoUpload 1700000000000, ExtractFrames 0 noContext] initialApp
     = \<lparr>videoFile = True, segments = [(newSegment 1700000000000)\<lparr>status := Extracting\<rparr>], pending = []\<rparr>
   \<and> error ((newSegment 1700000000000)\<lparr>status := Extracting\<rparr>) = None
   \<and> step (ExtractFrames 0 camera) (run [VideoUpload 1700000000000, ExtractFrames 0 noContext] initialApp)
     = run [VideoUpload 1700000000000, ExtractFrames 0 noContext] initialApp"
  by (simp add: run_Nil run_Cons initialApp_def handleVideoUpload_def extractFrames_def noContext_def
        camera_works updateSegment_def newSegment_def)

section \<open>Selection and generation\<close>

text \<open>
  C8. With at most one end of the selection set, \<open>generateGif\<close> returns at its guard:
  it starts no work (no call for the worker script, no encoder, no call of the caption
  service) and makes no \<open>onUpdate\<close> call, whatever the encoder and the caption service
  would answer, and the page is left as it was, the segment's status included.
\<close>

theorem generateGif_incomplete_selection_noop:
  assumes "i < length (segments app)"
      and "start_frame (selectedFrameRange (segments app ! i)) = None
             \<or> end_frame (selectedFrameRange (segments app ! i)) = None"
  shows "generateGif env (segments app ! i) = \<lparr>calls = [], updates = []\<rparr>
       \<and> step (GenerateGif i env) app = app"
  using assms by (auto simp: generateGif_def split: option.splits)

theorem generateGif_incomplete_selection_noop_witness:
  "generateGif bothSucceed
     (exampleSegment\<lparr>selectedFrameRange := \<lparr>start_frame = Some (1 / 8), end_frame = None\<rparr>\<rparr>)
   = \<lparr>calls = [], updates = []\<rparr>
   \<and> step (GenerateGif 0 bothSucceed)
     \<lparr>videoFile = True,
      segments = [exampleSegment\<lparr>selectedFrameRange := \<lparr>start_frame = Some (1 / 8), end_frame = None\<rparr>\<rparr>],
      pending = []\<rparr>
   = \<lparr>videoFile = True,
      segments = [exampleSegment\<lparr>selectedFrameRange := \<lparr>start_frame = Some (1 / 8), end_frame = None\<rparr>\<rparr>],
      pending = []\<rparr>"
  using generateGif_incomplete_selection_noop
    [of 0 "\<lparr>videoFile = True,
      segments = [exampleSegment\<lparr>selectedFrameRange := \<lparr>start_frame = Some (1 / 8), end_frame = None\<rparr>\<rparr>],
      pending = []\<rparr>" bothSucceed]
  by simp

lemma handleFrameSelection_fresh:
  assumes "start_frame (selectedFrameRange segment) = None \<or> end_frame (selectedFrameRange segment) \<noteq> None"
  shows "handleFrameSelection c segment = segment\<lparr>selectedFrameRange := \<lparr>start_frame = Some c, end_frame = None\<rparr>\<rparr>"
  using assms by (auto simp: handleFrameSelection_def split: option.splits)

lemma handleFrameSelection_second:
  assumes "start_frame (selectedFrameRange segment) = Some a" "end_frame (selectedFrameRange segment) = None"
  shows "\<exists>x y. handleFrameSelection b segment = segment\<lparr>selectedFrameRange := \<lparr>start_frame = Some x, end_frame = Some y\<rparr>\<rparr>"
  using assms by (auto simp: handleFrameSelection_def Let_def)

text \<open>
  C7. Three calls of \<open>selectFrame\<close> on a segment whose selection is empty or complete
  leave the selection \<open>{start: c, end: none}\<close> and nothing else changed: the first call
  starts a pair, the second completes it, the third discards it and starts afresh. (On a
  segment with exactly one end set, the three calls end with a complete pair instead; see
  the counterexample.)
\<close>

theorem third_selectFrame_starts_fresh_pair:
  assumes "start_frame (selectedFrameRange segment) = None \<or> end_frame (selectedFrameRange segment) \<noteq> None"
  shows "handleFrameSelection c (handleFrameSelection b (handleFrameSelection a segment))
           = segment\<lparr>selectedFrameRange := \<lparr>start_frame = Some c, end_frame = None\<rparr>\<rparr>"
proof -
  let ?s1 = "segment\<lparr>selectedFrameRange := \<lparr>start_frame = Some a, end_frame = None\<rparr>\<rparr>"
  have s1: "handleFrameSelection a segment = ?s1"
    using assms by (rule handleFrameSelection_fresh)
  obtain x y where s2: "handleFrameSelection b ?s1 = ?s1\<lparr>selectedFrameRange := \<lparr>start_frame = Some x, end_frame = Some y\<rparr>\<rparr>"
    using handleFrameSelection_second [of ?s1 a b] by auto
  show ?thesis
    unfolding s1 s2 by (simp add: handleFrameSelection_fresh)
qed

theorem third_selectFrame_starts_fresh_pair_witness:
  "handleFrameSelection (3 / 8) (handleFrameSelection (5 / 8) (handleFrameSelection (1 / 8) exampleSegment))
     = exampleSegment\<lparr>selectedFrameRange := \<lparr>start_frame = Some (3 / 8), end_frame = None\<rparr>\<rparr>"
  using third_selectFrame_starts_fresh_pair [of exampleSegment "3 / 8" "5 / 8" "1 / 8"]
  by (simp add: exampleSegment_def)

theorem third_selectFrame_after_single_click_counterexample:
  "selectedFrameRange
     (handleFrameSelection (3 / 8) (handleFrameSelection (5 / 8) (handleFrameSelection (1 / 8)
        (exampleSegment\<lparr>selectedFrameRange := \<lparr>start_frame = Some (7 / 8), end_frame = None\<rparr>\<rparr>))))
     = \<lparr>start_frame = Some (5 / 8), end_frame = Some (3 / 8)\<rparr>
   \<and> selectedFrameRange
     (handleFrameSelection (3 / 8) (handleFrameSelection (5 / 8) (handleFrameSelection (1 / 8)
        (exampleSegment\<lparr>selectedFrameRange := \<lparr>start_frame = Some (7 / 8), end_frame = None\<rparr>\<rparr>))))
     \<noteq> \<lparr>start_frame = Some (3 / 8), end_frame = None\<rparr>"
  by (simp add: handleFrameSelection_def exampleSegment_def exampleFrames_def)

section \<open>The default range\<close>

text \<open>
  C10. When the metadata of the video loads, a segment whose range ends at exactly 1 gets
  the range from 0 to \<open>min(5, duration)\<close>, whatever its start was and whoever set the end;
  a segment whose range ends elsewhere is left as it is, and so is the page.
\<close>

theorem loadedMetadata_replaces_default_range:
  assumes "i < length (segments app)"
  shows "(end_time (timeRange (segments app ! i)) = 1 \<longrightarrow>
            segments (step (LoadedMetadata i duration) app) ! i
              = (segments app ! i)\<lparr>timeRange := \<lparr>start_time = 0, end_time = min 5 duration\<rparr>\<rparr>)
       \<and> (end_time (timeRange (segments app ! i)) \<noteq> 1 \<longrightarrow> step (LoadedMetadata i duration) app = app)"
  using assms by (simp add: handleLoadedMetadata_def updateSegment_def)

theorem loadedMetadata_replaces_default_range_witness:
  "segments (step (LoadedMetadata 0 10)
      \<lparr>videoFile = True,
       segments = [exampleSegment\<lparr>timeRange := \<lparr>start_time = 1 / 2, end_time = 1\<rparr>\<rparr>], pending = []\<rparr>) ! 0
     = exampleSegment\<lparr>timeRange := \<lparr>start_time = 0, end_time = 5\<rparr>\<rparr>
   \<and> step (LoadedMetadata 0 10) \<lparr>videoFile = True, segments = [exampleSegment], pending = []\<rparr>
     = \<lparr>videoFile = True, segments = [exampleSegment], pending = []\<rparr>"
  using loadedMetadata_replaces_default_range
          [of 0 "\<lparr>videoFile = True,
                  segments = [exampleSegment\<lparr>timeRange := \<lparr>start_time = 1 / 2, end_time = 1\<rparr>\<rparr>],
                  pending = []\<rparr>" 10]
        loadedMetadata_replaces_default_range
          [of 0 "\<lparr>videoFile = True, segments = [exampleSegment], pending = []\<rparr>" 10]
  by (simp add: exampleSegment_def)

section \<open>What the handlers leave alone\<close>

lemma extractFrames_keeps:
  assumes "u \<in> set (extractFrames env segment)"
  shows "segment_id u = segment_id segment \<and> timeRange u = timeRange segment"
  using assms by (auto simp: extractFrames_def Let_def split: if_splits option.splits)

lemma generateGif_keeps:
  assumes "u \<in> set (updates (generateGif env segment))"
  shows "segment_id u = segment_id segment \<and> timeRange u = timeRange segment"
proof (cases "start_frame (selectedFrameRange segment)")
  case None
  then show ?thesis using assms by (simp add: generateGif_def)
next
  case (Some s)
  show ?thesis
  proof (cases "end_frame (selectedFrameRange segment)")
    case None
    then show ?thesis using assms Some by (simp add: generateGif_def)
  next
    case e: (Some e)
    show ?thesis
    proof (cases "promise_all (gifRejectsFirst env)
                    (gifPromise env (map dataUrl (selectedFrames s e segment)))
                    (generateDescriptionForFrames env
                       (map dataUrl (selectedFrames s e segment)))")
      case (Resolved r)
      then show ?thesis
        using assms Some e by (cases r) (auto simp: generateGif_def Let_def)
    next
      case (Rejected err)
      then show ?thesis
        using assms Some e by (auto simp: generateGif_def Let_def)
    next
      case Never
      then show ?thesis
        using assms Some e by (auto simp: generateGif_def Let_def)
    qed
  qed
qed

lemma handleFrameSelection_keeps:
  "segment_id (handleFrameSelection f segment) = segment_id segment
   \<and> timeRange (handleFrameSelection f segment) = timeRange segment"
  by (auto simp: handleFrameSelection_def Let_def split: option.splits)

lemma handleRangeChange_keeps:
  assumes "handleRangeChange val p segment = Some u"
  shows "segment_id u = segment_id segment \<and> validRange u"
  using assms by (auto simp: handleRangeChange_def validRange_def Let_def split: if_splits)

lemma handleLoadedMetadata_keeps:
  assumes "handleLoadedMetadata (Some duration) segment = Some u"
  shows "segment_id u = segment_id segment \<and> (0 < duration \<longrightarrow> validRange u)"
  using assms by (auto simp: handleLoadedMetadata_def validRange_def split: if_splits)

section \<open>The time range\<close>

lemma updateSegment_valid:
  assumes "validRange u" "list_all validRange (segments app)"
  shows "list_all validRange (segments (updateSegment u app))"
  using assms by (auto simp: updateSegment_def list_all_iff)

lemma updateSegment_pending: "pending (updateSegment u app) = pending app"
  by (simp add: updateSegment_def)

lemma updateSegment_rangesValid:
  assumes "validRange u" "rangesValid app"
  shows "rangesValid (updateSegment u app)"
  using assms by (simp add: rangesValid_def updateSegment_valid updateSegment_pending)

lemma dispatch_rangesValid:
  assumes "list_all validRange us" "rangesValid app"
  shows "rangesValid (dispatch us app)"
proof (cases us)
  case Nil
  then show ?thesis using assms by simp
next
  case (Cons u later)
  then have "validRange u" "list_all validRange later"
    using assms(1) by simp_all
  then show ?thesis
    using assms(2) Cons
    by (simp add: rangesValid_def updateSegment_valid updateSegment_pending)
qed

lemma nth_valid: "list_all validRange xs \<Longrightarrow> i < length xs \<Longrightarrow> validRange (xs ! i)"
  by (simp add: list_all_length)

lemma step_rangesValid:
  assumes "rangesValid app" "positiveDuration e"
  shows "rangesValid (step e app)"
proof (cases e)
  case (VideoUpload now)
  then show ?thesis
    using assms by (simp add: rangesValid_def handleVideoUpload_def newSegment_def validRange_def)
next
  case (AddSegment now)
  then show ?thesis
    using assms by (simp add: rangesValid_def addSegment_def newSegment_def validRange_def)
next
  case (RemoveSegment i)
  then show ?thesis
    using assms by (simp add: rangesValid_def removeSegment_def list_all_iff)
next
  case (LoadedMetadata i duration)
  then show ?thesis
    using assms handleLoadedMetadata_keeps [of duration "segments app ! i"]
    by (auto simp: updateSegment_rangesValid split: option.splits)
next
  case (RangeChange i val p)
  then show ?thesis
    using assms handleRangeChange_keeps [of val p "segments app ! i"]
    by (auto simp: updateSegment_rangesValid split: option.splits)
next
  case (ExtractFrames i env)
  show ?thesis
  proof (cases "i < length (segments app) \<and> status (segments app ! i) \<noteq> Extracting")
    case True
    then have v: "validRange (segments app ! i)"
      using assms(1) by (simp add: rangesValid_def nth_valid)
    have "list_all validRange (extractFrames env (segments app ! i))"
      using v extractFrames_keeps [of _ env "segments app ! i"]
      by (auto simp: list_all_iff validRange_def)
    then show ?thesis
      using True ExtractFrames assms(1) by (simp add: dispatch_rangesValid)
  next
    case False
    then show ?thesis using ExtractFrames assms(1) by auto
  qed
next
  case (FrameSelection i j)
  show ?thesis
  proof (cases "i < length (segments app) \<and> step2Shown (segments app ! i)
         \<and> j < length (frames (segments app ! i))")
    case True
    then have v: "validRange (segments app ! i)"
      using assms(1) by (simp add: rangesValid_def nth_valid)
    then have "validRange (handleFrameSelection (frame_id (frames (segments app ! i) ! j)) (segments app ! i))"
      by (simp add: validRange_def handleFrameSelection_keeps)
    then show ?thesis
      using True FrameSelection assms(1) by (simp add: updateSegment_rangesValid)
  next
    case False
    then show ?thesis using FrameSelection assms(1) by auto
  qed
next
  case (GenerateGif i env)
  show ?thesis
  proof (cases "i < length (segments app) \<and> step2Shown (segments app ! i)
         \<and> status (segments app ! i) \<noteq> Generating")
    case True
    then have v: "validRange (segments app ! i)"
      using assms(1) by (simp add: rangesValid_def nth_valid)
    have "list_all validRange (updates (generateGif env (segments app ! i)))"
      using v generateGif_keeps [of _ env "segments app ! i"]
      by (auto simp: list_all_iff validRange_def)
    then show ?thesis
      using True GenerateGif assms(1) by (simp add: dispatch_rangesValid)
  next
    case False
    then show ?thesis using GenerateGif assms(1) by auto
  qed
next
  case (Settle j)
  show ?thesis
  proof (cases "j < length (pending app)")
    case True
    then have v: "validRange (pending app ! j)"
      using assms(1) by (simp add: rangesValid_def nth_valid)
    have p: "list_all validRange (take j (pending app) @ drop (Suc j) (pending app))"
      using assms(1) by (auto simp: rangesValid_def list_all_iff dest: in_set_takeD in_set_dropD)
    have "list_all validRange (segments (updateSegment (pending app ! j) app))"
      using v assms(1) by (simp add: rangesValid_def updateSegment_valid)
    then show ?thesis
      using True Settle p by (simp add: rangesValid_def)
  next
    case False
    then show ?thesis using Settle assms(1) by simp
  qed
qed

lemma run_rangesValid:
  assumes "list_all positiveDuration evs" "rangesValid app"
  shows "rangesValid (run evs app)"
  using assms
proof (induction evs arbitrary: app)
  case Nil
  then show ?case by (simp add: run_Nil)
next
  case (Cons e evs)
  then show ?case by (simp add: run_Cons step_rangesValid)
qed

lemma rangeChange_rejected:
  assumes "i < length (segments app)"
      and "(p = Start \<and> end_time (timeRange (segments app ! i)) \<le> val)
           \<or> (p = End \<and> val \<le> start_time (timeRange (segments app ! i)))"
  shows "step (RangeChange i val p) app = app"
  using assms by (auto simp: handleRangeChange_def Let_def)

text \<open>
  C6. An edit of the range that would not leave the start before the end is rejected: the
  page is left as it was, so nothing changes and no error is set. Hence the start of
  every segment's range lies before its end in every state the page reaches, provided
  each load of metadata reports a positive duration. (A load that reports the duration 0
  sets the range from 0 to 0; see the counterexample.)
\<close>

theorem timeRange_start_before_end:
  assumes "list_all positiveDuration evs"
  shows "(\<forall>segment \<in> set (segments (run evs initialApp)).
            start_time (timeRange segment) < end_time (timeRange segment))
       \<and> (\<forall>app i val. i < length (segments app) \<and> end_time (timeRange (segments app ! i)) \<le> val
            \<longrightarrow> step (RangeChange i val Start) app = app)
       \<and> (\<forall>app i val. i < length (segments app) \<and> val \<le> start_time (timeRange (segments app ! i))
            \<longrightarrow> step (RangeChange i val End) app = app)"
proof (intro conjI)
  have "rangesValid initialApp"
    by (simp add: rangesValid_def initialApp_def)
  then have "rangesValid (run evs initialApp)"
    using assms by (rule run_rangesValid [rotated])
  then show "\<forall>segment \<in> set (segments (run evs initialApp)).
            start_time (timeRange segment) < end_time (timeRange segment)"
    by (simp add: rangesValid_def list_all_iff validRange_def)
qed (auto simp: handleRangeChange_def Let_def)

theorem timeRange_start_before_end_witness:
  "list_all validRange
     (segments (run [VideoUpload 1700000000000, LoadedMetadata 0 (1 / 4),
                     RangeChange 0 (1 / 2) Start, RangeChange 0 (1 / 8) End] initialApp))
   \<and> segments (run [VideoUpload 1700000000000, LoadedMetadata 0 (1 / 4),
                    RangeChange 0 (1 / 2) Start, RangeChange 0 (1 / 8) End] initialApp)
       = [(newSegment 1700000000000)\<lparr>timeRange := \<lparr>start_time = 0, end_time = 1 / 8\<rparr>\<rparr>]"
  using timeRange_start_before_end
          [of "[VideoUpload 1700000000000, LoadedMetadata 0 (1 / 4), RangeChange 0 (1 / 2) Start,
                RangeChange 0 (1 / 8) End]"]
  by (simp add: run_Nil run_Cons initialApp_def handleVideoUpload_def handleLoadedMetadata_def
        handleRangeChange_def updateSegment_def newSegment_def validRange_def)

theorem zero_duration_counterexample:
  "segments (run [VideoUpload 1700000000000, LoadedMetadata 0 0] initialApp)
     = [(newSegment 1700000000000)\<lparr>timeRange := \<lparr>start_time = 0, end_time = 0\<rparr>\<rparr>]
   \<and> \<not> validRange (segments (run [VideoUpload 1700000000000, LoadedMetadata 0 0] initialApp) ! 0)"
  by (simp add: run_Nil run_Cons initialApp_def handleVideoUpload_def handleLoadedMetadata_def
        updateSegment_def newSegment_def validRange_def)

section \<open>Identifiers\<close>

lemma updateSegment_ids:
  "map segment_id (segments (updateSegment u app)) = map segment_id (segments app)"
  by (simp add: updateSegment_def)

lemma dispatch_ids:
  assumes "\<forall>u \<in> set us. segment_id u = segment_id segment"
  shows "map segment_id (segments (dispatch us app)) = map segment_id (segments app)"
  by (cases us) (simp_all add: updateSegment_ids)

lemma step_keeps_ids:
  assumes "\<not> changesSegmentList e"
  shows "map segment_id (segments (step e app)) = map segment_id (segments app)"
proof (cases e)
  case (LoadedMetadata i duration)
  then show ?thesis by (simp add: updateSegment_ids split: option.splits)
next
  case (RangeChange i val p)
  then show ?thesis by (simp add: updateSegment_ids split: option.splits)
next
  case (ExtractFrames i env)
  then show ?thesis
    using dispatch_ids [of "extractFrames env (segments app ! i)" "segments app ! i" app]
          extractFrames_keeps [of _ env "segments app ! i"]
    by simp
next
  case (FrameSelection i j)
  then show ?thesis by (simp add: updateSegment_ids)
next
  case (GenerateGif i env)
  then show ?thesis
    using dispatch_ids [of "updates (generateGif env (segments app ! i))" "segments app ! i" app]
          generateGif_keeps [of _ env "segments app ! i"]
    by simp
next
  case (Settle j)
  then show ?thesis by (simp add: updateSegment_ids)
qed (use assms in simp_all)

lemma creationTimes_append:
  "creationTimes (xs @ ys) = creationTimes xs @ creationTimes ys"
  by (induction xs rule: creationTimes.induct) simp_all

lemma step_ids_from_clock:
  assumes "distinct (map segment_id (segments app))"
      and "set (map segment_id (segments app)) \<subseteq> set seen"
      and "distinct (seen @ creationTimes [e])"
  shows "distinct (map segment_id (segments (step e app)))
       \<and> set (map segment_id (segments (step e app))) \<subseteq> set (seen @ creationTimes [e])"
proof (cases "changesSegmentList e")
  case False
  have "creationTimes [e] = []"
    using False by (cases e) simp_all
  then show ?thesis
    using assms step_keeps_ids [OF False, of app] by simp
next
  case True
  then show ?thesis
  proof (cases e)
    case (VideoUpload now)
    then show ?thesis
      using assms by (auto simp: handleVideoUpload_def newSegment_def)
  next
    case (AddSegment now)
    then show ?thesis
      using assms by (auto simp: addSegment_def newSegment_def)
  next
    case (RemoveSegment i)
    have "distinct (map segment_id (filter P (segments app)))" for P
      using assms(1) by (rule distinct_map_filter)
    then show ?thesis
      using RemoveSegment assms by (auto simp: removeSegment_def)
  qed simp_all
qed

lemma run_ids_from_clock:
  "distinct (creationTimes evs) \<Longrightarrow>
   distinct (map segment_id (segments (run evs initialApp)))
   \<and> set (map segment_id (segments (run evs initialApp))) \<subseteq> set (creationTimes evs)"
proof (induction evs rule: rev_induct)
  case Nil
  then show ?case by (simp add: run_Nil initialApp_def)
next
  case (snoc e evs)
  have d: "distinct (creationTimes evs @ creationTimes [e])"
    using snoc.prems by (simp add: creationTimes_append)
  then have "distinct (creationTimes evs)"
    by simp
  then have ih: "distinct (map segment_id (segments (run evs initialApp)))"
       "set (map segment_id (segments (run evs initialApp))) \<subseteq> set (creationTimes evs)"
    using snoc.IH by simp_all
  show ?case
    using step_ids_from_clock [OF ih d]
    by (simp add: run_append run_Cons run_Nil creationTimes_append)
qed

lemma frameLoop_ids:
  assumes "frameLoop rand cap e time acc = Some fs"
  shows "length acc \<le> length fs
       \<and> map frame_id fs = map frame_id acc @ map rand [length acc..<length fs]"
proof (rule frameLoop.raw_induct
    [where P = "\<lambda>rand cap e time acc fs. length acc \<le> length fs
       \<and> map frame_id fs = map frame_id acc @ map rand [length acc..<length fs]", OF _ assms])
  fix loop :: "(nat \<Rightarrow> number) \<Rightarrow> (number \<Rightarrow> string) \<Rightarrow> number \<Rightarrow> number \<Rightarrow> Frame list \<Rightarrow> Frame list option"
  fix rand cap e time acc fs
  assume ih: "\<And>rand cap e time acc fs. loop rand cap e time acc = Some fs \<Longrightarrow>
       length acc \<le> length fs
       \<and> map frame_id fs = map frame_id acc @ map rand [length acc..<length fs]"
  assume body: "(if time \<le> e
      then loop rand cap e (js_add time interval)
             (acc @ [\<lparr>frame_id = rand (length acc), timestamp = time, dataUrl = cap time\<rparr>])
      else Some acc) = Some fs"
  show "length acc \<le> length fs
       \<and> map frame_id fs = map frame_id acc @ map rand [length acc..<length fs]"
  proof (cases "time \<le> e")
    case True
    let ?acc' = "acc @ [\<lparr>frame_id = rand (length acc), timestamp = time, dataUrl = cap time\<rparr>]"
    have r: "loop rand cap e (js_add time interval) ?acc' = Some fs"
      using body True by simp
    have h: "length ?acc' \<le> length fs \<and>
       map frame_id fs = map frame_id ?acc' @ map rand [length ?acc'..<length fs]"
      using r by (rule ih)
    have "[length acc..<length fs] = length acc # [Suc (length acc)..<length fs]"
      using h by (simp add: upt_conv_Cons)
    then show ?thesis
      using h by simp
  next
    case False
    then show ?thesis using body by simp
  qed
qed

lemma frameLoop_distinct_ids:
  assumes "frameLoop rand cap e time [] = Some fs" "inj_on rand {..<length fs}"
  shows "distinct (map frame_id fs)"
proof -
  have "map frame_id fs = map rand [0..<length fs]"
    using frameLoop_ids [OF assms(1)] by simp
  moreover have "distinct (map rand [0..<length fs])"
    using assms(2) by (simp add: distinct_map atLeast0LessThan)
  ultimately show ?thesis by simp
qed

text \<open>
  C9. A segment's id is the clock reading of its creation, and no update changes it: every
  event but upload, add and remove leaves the list of ids as it is. The ids of the
  segments are pairwise distinct provided the clock readings of the creations are, and
  the frame ids of one extraction are pairwise distinct provided its random draws are
  (and the extraction does produce its frames for every range within the first \<open>2^49\<close>
  seconds).
  (Two segments added at the same clock reading share their id; see the counterexample.)
\<close>

theorem identifiers_unique_when_draws_are:
  assumes "distinct (creationTimes evs)"
  shows "distinct (map segment_id (segments (run evs initialApp)))
       \<and> set (map segment_id (segments (run evs initialApp))) \<subseteq> set (creationTimes evs)
       \<and> (\<forall>e app. \<not> changesSegmentList e
            \<longrightarrow> map segment_id (segments (step e app)) = map segment_id (segments app))
       \<and> (\<forall>rand cap e time fs.
             frameLoop rand cap e time [] = Some fs \<and> inj_on rand {..<length fs}
             \<longrightarrow> distinct (map frame_id fs))
       \<and> (\<forall>rand cap e time. 0 \<le> time \<and> e \<le> 2 ^ 49
             \<longrightarrow> (\<exists>fs. frameLoop rand cap e time [] = Some fs))"
proof (intro conjI allI impI)
  show "distinct (map segment_id (segments (run evs initialApp)))"
    using run_ids_from_clock [OF assms] by simp
  show "set (map segment_id (segments (run evs initialApp))) \<subseteq> set (creationTimes evs)"
    using run_ids_from_clock [OF assms] by simp
next
  fix e app
  assume "\<not> changesSegmentList e"
  then show "map segment_id (segments (step e app)) = map segment_id (segments app)"
    by (rule step_keeps_ids)
next
  fix rand cap e time fs
  assume "frameLoop rand cap e time [] = Some fs \<and> inj_on rand {..<length fs}"
  then show "distinct (map frame_id fs)"
    using frameLoop_distinct_ids by blast
next
  fix rand :: "nat \<Rightarrow> number" and cap :: "number \<Rightarrow> string" and e time :: number
  assume "0 \<le> time \<and> e \<le> 2 ^ 49"
  then show "\<exists>fs. frameLoop rand cap e time [] = Some fs"
    using frameLoop_ends by blast
qed

theorem identifiers_unique_when_draws_are_witness:
  "distinct (map segment_id
     (segments (run [VideoUpload 1700000000000, AddSegment 1700000005000,
                     AddSegment 1700000005250] initialApp)))
   \<and> map segment_id
     (segments (run [VideoUpload 1700000000000, AddSegment 1700000005000,
                     AddSegment 1700000005250] initialApp))
     = [1700000000000, 1700000005000, 1700000005250]
   \<and> distinct (map frame_id quarterFrames)"
proof -
  let ?evs = "[VideoUpload 1700000000000, AddSegment 1700000005000, AddSegment 1700000005250]"
  have d: "distinct (creationTimes ?evs)"
    by simp
  have inj: "inj_on (random camera) {..<length quarterFrames}"
    by (auto simp: inj_on_def camera_def quarterFrames_def)
  have "distinct (map frame_id quarterFrames)"
    using identifiers_unique_when_draws_are [OF d] camera_quarter_second inj by blast
  moreover have "distinct (map segment_id (segments (run ?evs initialApp)))"
    using identifiers_unique_when_draws_are [OF d] by blast
  moreover have "map segment_id (segments (run ?evs initialApp))
                   = [1700000000000, 1700000005000, 1700000005250]"
    by (simp add: run_Nil run_Cons initialApp_def handleVideoUpload_def addSegment_def newSegment_def)
  ultimately show ?thesis by simp
qed

theorem same_clock_reading_counterexample:
  "map segment_id
     (segments (run [VideoUpload 1700000000000, AddSegment 1700000005000,
                     AddSegment 1700000005000] initialApp))
     = [1700000000000, 1700000005000, 1700000005000]
   \<and> \<not> distinct (map segment_id
     (segments (run [VideoUpload 1700000000000, AddSegment 1700000005000,
                     AddSegment 1700000005000] initialApp)))"
  by (simp add: run_Nil run_Cons initialApp_def handleVideoUpload_def addSegment_def newSegment_def)

end
